theory Spec2Isabelle
  imports Main
begin

section \<open>Python values, exceptions and dictionaries\<close>

text \<open>
  The pipeline handles three kinds of Python values: \<open>str\<close>, \<open>bool\<close> and \<open>int\<close>
  (the return type of \<open>convert_value\<close>).  A Python \<open>str\<close> is modelled as a list of
  characters whose code points lie below 256, so every character class below
  (\<open>isspace\<close>, \<open>isdigit\<close>, \<open>lower\<close>) is the one Python uses on that range.
  Python integers are unbounded: \<open>int\<close>.
\<close>

datatype pyval = VStr string | VBool bool | VInt int

text \<open>
  An exception carries the text that \<open>str(e)\<close> yields.  \<open>OtherError\<close> stands for any
  exception class raised by a library outside this module; its first field is the class name.
\<close>

datatype exc =
    AttributeError string
  | TypeError string
  | ValueError string
  | KeyError string
  | IndexError string
  | OtherError string string

fun exc_str :: "exc \<Rightarrow> string" where
  "exc_str (AttributeError m) = m"
| "exc_str (TypeError m) = m"
| "exc_str (ValueError m) = m"
| "exc_str (KeyError m) = m"
| "exc_str (IndexError m) = m"
| "exc_str (OtherError c m) = m"

text \<open>\<open>try: body except Exception as e: handler(e)\<close>\<close>

definition try_except :: "(exc + 'a) \<Rightarrow> (exc \<Rightarrow> exc + 'a) \<Rightarrow> exc + 'a" where
  "try_except body handler = (case body of Inl e \<Rightarrow> handler e | Inr v \<Rightarrow> Inr v)"

text \<open>Sequencing of two steps, the second of which runs only when the first did not raise.\<close>

definition and_then :: "(exc + 'a) \<Rightarrow> ('a \<Rightarrow> exc + 'b) \<Rightarrow> exc + 'b" where
  "and_then m f = (case m of Inl e \<Rightarrow> Inl e | Inr v \<Rightarrow> f v)"

text \<open>
  A Python \<open>dict\<close> keeps its keys in insertion order; assigning to a key that is already
  present replaces the value and leaves the key where it is.
\<close>

type_synonym pydict = "(string \<times> pyval) list"

fun dict_set :: "'k \<Rightarrow> 'v \<Rightarrow> ('k \<times> 'v) list \<Rightarrow> ('k \<times> 'v) list" where
  "dict_set k v [] = [(k, v)]"
| "dict_set k v ((k', v') # d) = (if k' = k then (k, v) # d else (k', v') # dict_set k v d)"

definition dict_get :: "('k \<times> 'v) list \<Rightarrow> 'k \<Rightarrow> 'v option" where
  "dict_get d k = map_of d k"

definition dict_keys :: "('k \<times> 'v) list \<Rightarrow> 'k list" where
  "dict_keys d = map fst d"

definition type_name :: "pyval \<Rightarrow> string" where
  "type_name v = (case v of VStr _ \<Rightarrow> ''str'' | VBool _ \<Rightarrow> ''bool'' | VInt _ \<Rightarrow> ''int'')"

text \<open>Calling a \<open>str\<close> method on a value that has none.\<close>

definition no_attribute :: "pyval \<Rightarrow> string \<Rightarrow> exc" where
  "no_attribute v attr =
     AttributeError ([CHR 0x27] @ type_name v @ [CHR 0x27] @ '' object has no attribute ''
                     @ [CHR 0x27] @ attr @ [CHR 0x27])"

text \<open>Truth value of a Python value, as \<open>not v\<close>, \<open>bool(v)\<close> and \<open>if v\<close> take it.\<close>

definition truthy :: "pyval \<Rightarrow> bool" where
  "truthy v = (case v of VStr s \<Rightarrow> s \<noteq> [] | VBool b \<Rightarrow> b | VInt i \<Rightarrow> i \<noteq> 0)"

section \<open>String operations\<close>

definition code_point :: "char \<Rightarrow> nat" where
  "code_point c = of_char c"

text \<open>\<open>str.isspace\<close> on one character: the whitespace that \<open>strip()\<close> and \<open>split()\<close> remove.\<close>

definition is_space :: "char \<Rightarrow> bool" where
  "is_space c = (let n = code_point c in
     (9 \<le> n \<and> n \<le> 13) \<or> (28 \<le> n \<and> n \<le> 32) \<or> n = 133 \<or> n = 160)"

text \<open>\<open>str.isdigit\<close> on one character: the decimal digits and the superscripts two, three, one.\<close>

definition is_digit :: "char \<Rightarrow> bool" where
  "is_digit c = (let n = code_point c in (48 \<le> n \<and> n \<le> 57) \<or> n = 178 \<or> n = 179 \<or> n = 185)"

definition is_decimal :: "char \<Rightarrow> bool" where
  "is_decimal c = (let n = code_point c in 48 \<le> n \<and> n \<le> 57)"

definition lower_char :: "char \<Rightarrow> char" where
  "lower_char c = (let n = code_point c in
     if (65 \<le> n \<and> n \<le> 90) \<or> (192 \<le> n \<and> n \<le> 222 \<and> n \<noteq> 215) then char_of (n + 32) else c)"

definition lower :: "string \<Rightarrow> string" where
  "lower s = map lower_char s"

definition lstrip :: "string \<Rightarrow> string" where
  "lstrip s = dropWhile is_space s"

definition rstrip :: "string \<Rightarrow> string" where
  "rstrip s = rev (dropWhile is_space (rev s))"

definition strip :: "string \<Rightarrow> string" where
  "strip s = rstrip (lstrip s)"

definition isdigit :: "string \<Rightarrow> bool" where
  "isdigit s = (s \<noteq> [] \<and> list_all is_digit s)"

definition endswith :: "string \<Rightarrow> string \<Rightarrow> bool" where
  "endswith s suf = (length suf \<le> length s \<and> drop (length s - length suf) s = suf)"

text \<open>\<open>s.find('--')\<close>: the index of the first occurrence of the marker, or \<open>-1\<close>.\<close>

fun find_marker :: "string \<Rightarrow> int" where
  "find_marker (a # b # cs) =
     (if a = CHR ''-'' \<and> b = CHR ''-'' then 0
      else (let r = find_marker (b # cs) in if r = -1 then -1 else r + 1))"
| "find_marker cs = -1"

text \<open>\<open>s.split('--')\<close>: the pieces between non-overlapping markers, scanned from the left.\<close>

fun split_marker :: "string \<Rightarrow> string list" where
  "split_marker (a # b # cs) =
     (if a = CHR ''-'' \<and> b = CHR ''-'' then [] # split_marker cs
      else (case split_marker (b # cs) of
              [] \<Rightarrow> [[a]]
            | p # ps \<Rightarrow> (a # p) # ps))"
| "split_marker cs = [cs]"

text \<open>
  \<open>s.split(None, 1)\<close>: skip leading whitespace; the first word; then, after the whitespace
  run that follows it, the remainder as it is (when it is not empty).
\<close>

definition split_ws1 :: "string \<Rightarrow> string list" where
  "split_ws1 s =
     (let s1 = dropWhile is_space s in
      if s1 = [] then []
      else (let word = takeWhile (\<lambda>c. \<not> is_space c) s1;
                rest = dropWhile is_space (dropWhile (\<lambda>c. \<not> is_space c) s1)
            in if rest = [] then [word] else [word, rest]))"

text \<open>
  \<open>repr(s)\<close> of a string: single quotes unless the string has a single quote and no double
  quote; the quote and the backslash escaped; tab, newline and carriage return by letter;
  every other non-printable character as \<open>\xhh\<close>.
\<close>

definition hex_digit :: "nat \<Rightarrow> char" where
  "hex_digit n = (if n < 10 then char_of (48 + n) else char_of (87 + n))"

definition repr_char :: "char \<Rightarrow> char \<Rightarrow> string" where
  "repr_char q c = (let n = code_point c in
     if c = q \<or> n = 92 then [CHR 0x5C, c]
     else if n = 9 then [CHR 0x5C, CHR ''t'']
     else if n = 10 then [CHR 0x5C, CHR ''n'']
     else if n = 13 then [CHR 0x5C, CHR ''r'']
     else if n < 32 \<or> (127 \<le> n \<and> n \<le> 160) \<or> n = 173
       then [CHR 0x5C, CHR ''x'', hex_digit (n div 16), hex_digit (n mod 16)]
     else [c])"

definition py_repr :: "string \<Rightarrow> string" where
  "py_repr s =
     (let q = (if CHR 0x27 \<in> set s \<and> CHR 0x22 \<notin> set s then CHR 0x22 else CHR 0x27)
      in [q] @ concat (map (repr_char q) s) @ [q])"

text \<open>
  \<open>int(s)\<close> on a string: surrounding whitespace is dropped, one sign is allowed, and the
  digits may be grouped by single underscores.  Anything else raises \<open>ValueError\<close>, whose
  message shows at most 200 characters of \<open>repr(s)\<close>.
\<close>

fun digit_groups :: "string \<Rightarrow> bool" where
  "digit_groups [] = False"
| "digit_groups [c] = is_decimal c"
| "digit_groups (c # d # cs) =
     (is_decimal c \<and> (if d = CHR ''_'' then digit_groups cs else digit_groups (d # cs)))"

definition decimal_value :: "string \<Rightarrow> int" where
  "decimal_value s =
     foldl (\<lambda>acc c. 10 * acc + (int (code_point c) - 48)) 0 (filter is_decimal s)"

definition int_of_str :: "string \<Rightarrow> exc + int" where
  "int_of_str s =
     (let t = strip s;
          neg = (t \<noteq> [] \<and> hd t = CHR ''-'');
          ds = (if t \<noteq> [] \<and> (hd t = CHR ''-'' \<or> hd t = CHR ''+'') then tl t else t)
      in if digit_groups ds then Inr (if neg then - decimal_value ds else decimal_value ds)
         else Inl (ValueError (''invalid literal for int() with base 10: ''
                               @ take 200 (py_repr s))))"

section \<open>The parameter tokenizer\<close>

text \<open>
  \<open>convert_value\<close> calls \<open>value.lower()\<close> first, which only a \<open>str\<close> has.
\<close>

definition convert_value :: "pyval \<Rightarrow> exc + pyval" where
  "convert_value v =
     (case v of
        VStr s \<Rightarrow>
          if lower s = ''true'' then Inr (VBool True)
          else if lower s = ''false'' then Inr (VBool False)
          else if isdigit s then and_then (int_of_str s) (\<lambda>i. Inr (VInt i))
          else Inr (VStr s)
      | _ \<Rightarrow> Inl (no_attribute v ''lower''))"

text \<open>The body of the \<open>for tok in tokens\<close> loop, and the loop.\<close>

definition parse_token :: "string \<Rightarrow> pydict \<Rightarrow> exc + pydict" where
  "parse_token tok0 params =
     (let tok = strip tok0 in
      if tok = [] then Inr params
      else (case split_ws1 tok of
              [] \<Rightarrow> Inl (IndexError ''list index out of range'')
            | param_name # more \<Rightarrow>
                and_then (convert_value (case more of [] \<Rightarrow> VBool True | r # _ \<Rightarrow> VStr r))
                  (\<lambda>param_value. Inr (dict_set param_name param_value params))))"

fun parse_tokens :: "string list \<Rightarrow> pydict \<Rightarrow> exc + pydict" where
  "parse_tokens [] params = Inr params"
| "parse_tokens (tok # toks) params = and_then (parse_token tok params) (parse_tokens toks)"

text \<open>The \<open>try\<close> block of \<open>parse_command_params\<close>.\<close>

definition parse_try :: "string \<Rightarrow> exc + pydict" where
  "parse_try user_message =
     (let param_index = find_marker user_message in
      if param_index = -1 then Inr [(''prompt'', VStr (strip user_message))]
      else (let prompt_part = strip (take (nat param_index) user_message);
                param_part = strip (drop (nat param_index) user_message);
                params = [(''prompt'', VStr prompt_part)];
                tokens = tl (split_marker param_part)
            in parse_tokens tokens params))"

definition parse_command_params :: "string \<Rightarrow> exc + pydict" where
  "parse_command_params user_message =
     try_except (parse_try user_message)
       (\<lambda>e. Inr [(''prompt'', VStr (strip user_message))])"

section \<open>The value normalizer\<close>

definition AVAILABLE_ASPECT_RATIOS :: "string list" where
  "AVAILABLE_ASPECT_RATIOS =
     [''custom'', ''1:1'', ''16:9'', ''3:2'', ''2:3'', ''4:5'', ''5:4'', ''9:16'', ''3:4'', ''4:3'']"

definition AVAILABLE_OUTPUT_FORMATS :: "string list" where
  "AVAILABLE_OUTPUT_FORMATS = [''webp'', ''jpg'', ''png'']"

definition ALLOWED_IMAGE_FORMATS :: "string list" where
  "ALLOWED_IMAGE_FORMATS = [''jpeg'', ''jpg'', ''png'', ''gif'', ''webp'']"

text \<open>
  Three collaborators live outside this module and are parameters of the model:
  \<^item> \<open>urlparse\<close> of \<open>urllib.parse\<close>, of which the module reads the scheme, the network
    location and the path;
  \<^item> \<open>get_close_matches(word, possibilities, n=1, cutoff=0.6)\<close> of \<open>difflib\<close>;
  \<^item> \<open>client.run("black-forest-labs/flux-1.1-pro", input=...)\<close> of the remote service,
    whose output is \<open>None\<close> when it is falsy and otherwise the text \<open>str(output)\<close>.
  Each of them may raise.
\<close>

record url_parts =
  url_scheme :: string
  url_netloc :: string
  url_path :: string

record env =
  urlparse :: "pyval \<Rightarrow> exc + url_parts"
  get_close_matches :: "string \<Rightarrow> string list \<Rightarrow> exc + string list"
  client_run :: "pydict \<Rightarrow> exc + string option"

text \<open>Every failure inside \<open>validate_image_url\<close> is caught and answered with \<open>False\<close>.\<close>

definition validate_image_url :: "env \<Rightarrow> pyval \<Rightarrow> bool" where
  "validate_image_url E url =
     (case urlparse E url of
        Inl e \<Rightarrow> False
      | Inr parsed \<Rightarrow>
          if url_scheme parsed = [] \<or> url_netloc parsed = [] then False
          else (let path = lower (url_path parsed)
                in list_ex (\<lambda>fmt. endswith path (''.'' @ fmt)) ALLOWED_IMAGE_FORMATS))"

text \<open>\<open>{c.lower(): c for c in candidates}\<close>\<close>

definition candidate_map :: "string list \<Rightarrow> (string \<times> string) list" where
  "candidate_map candidates = foldl (\<lambda>m c. dict_set (lower c) c m) [] candidates"

definition fuzzy_match ::
  "(string \<Rightarrow> string list \<Rightarrow> exc + string list) \<Rightarrow> pyval \<Rightarrow> string list \<Rightarrow> string \<Rightarrow> exc + string"
where
  "fuzzy_match close_matches input_text candidates default_value =
     (if \<not> truthy input_text then Inr default_value
      else (case input_text of
              VStr s \<Rightarrow>
                if lower s = ''none'' then Inr default_value
                else (let input_lower = strip (lower s) in
                      if s \<in> set candidates then Inr s
                      else and_then (close_matches input_lower (dict_keys (candidate_map candidates)))
                             (\<lambda>matches.
                                case matches of
                                  [] \<Rightarrow> Inr default_value
                                | m # _ \<Rightarrow>
                                    (case dict_get (candidate_map candidates) m of
                                       None \<Rightarrow> Inl (KeyError (py_repr m))
                                     | Some c \<Rightarrow> Inr c)))
            | _ \<Rightarrow> Inl (no_attribute input_text ''lower'')))"

text \<open>
  Comparison of two values, as \<open>min\<close> and \<open>max\<close> use it: a \<open>bool\<close> counts as the integer
  0 or 1, two strings compare by code points, and a string against a number raises.
\<close>

definition py_num :: "pyval \<Rightarrow> int option" where
  "py_num v = (case v of VInt i \<Rightarrow> Some i | VBool b \<Rightarrow> Some (if b then 1 else 0) | VStr _ \<Rightarrow> None)"

fun str_less :: "string \<Rightarrow> string \<Rightarrow> bool" where
  "str_less [] [] = False"
| "str_less [] (d # ds) = True"
| "str_less (c # cs) [] = False"
| "str_less (c # cs) (d # ds) = (code_point c < code_point d \<or> (c = d \<and> str_less cs ds))"

definition not_supported :: "string \<Rightarrow> pyval \<Rightarrow> pyval \<Rightarrow> exc" where
  "not_supported opr a b =
     TypeError ([CHR 0x27] @ opr @ [CHR 0x27] @ '' not supported between instances of ''
                @ [CHR 0x27] @ type_name a @ [CHR 0x27] @ '' and ''
                @ [CHR 0x27] @ type_name b @ [CHR 0x27])"

definition py_less :: "pyval \<Rightarrow> pyval \<Rightarrow> exc + bool" where
  "py_less a b =
     (case (a, b) of
        (VStr s, VStr t) \<Rightarrow> Inr (str_less s t)
      | _ \<Rightarrow> (case (py_num a, py_num b) of
                (Some i, Some j) \<Rightarrow> Inr (i < j)
              | _ \<Rightarrow> Inl (not_supported ''<'' a b)))"

definition py_greater :: "pyval \<Rightarrow> pyval \<Rightarrow> exc + bool" where
  "py_greater a b =
     (case (a, b) of
        (VStr s, VStr t) \<Rightarrow> Inr (str_less t s)
      | _ \<Rightarrow> (case (py_num a, py_num b) of
                (Some i, Some j) \<Rightarrow> Inr (i > j)
              | _ \<Rightarrow> Inl (not_supported ''>'' a b)))"

text \<open>\<open>min(a, b)\<close> keeps \<open>a\<close> unless \<open>b < a\<close>; \<open>max(a, b)\<close> keeps \<open>a\<close> unless \<open>b > a\<close>.\<close>

definition py_min :: "pyval \<Rightarrow> pyval \<Rightarrow> exc + pyval" where
  "py_min a b = and_then (py_less b a) (\<lambda>lt. Inr (if lt then b else a))"

definition py_max :: "pyval \<Rightarrow> pyval \<Rightarrow> exc + pyval" where
  "py_max a b = and_then (py_greater b a) (\<lambda>gt. Inr (if gt then b else a))"

text \<open>
  \<open>round(x / 32)\<close> for an integer \<open>x\<close> between 256 and 1440: the quotient is exact in
  binary floating point, and Python's \<open>round\<close> sends a tie to the even neighbour.
\<close>

definition round_div32 :: "int \<Rightarrow> int" where
  "round_div32 x =
     (let q = x div 32; r = x mod 32 in
      if r < 16 then q else if r > 16 then q + 1 else if even q then q else q + 1)"

definition clamp_dimension :: "pyval \<Rightarrow> exc + pyval" where
  "clamp_dimension v = and_then (py_min (VInt 1440) v) (\<lambda>m. py_max (VInt 256) m)"

definition round_dimension :: "pyval \<Rightarrow> exc + int" where
  "round_dimension v =
     (case py_num v of
        Some x \<Rightarrow> Inr (round_div32 x * 32)
      | None \<Rightarrow> Inl (TypeError (''unsupported operand type(s) for /: ''
                                @ [CHR 0x27] @ type_name v @ [CHR 0x27] @ '' and ''
                                @ [CHR 0x27] @ ''int'' @ [CHR 0x27])))"

definition validate_dimensions ::
  "pyval option \<Rightarrow> pyval option \<Rightarrow> exc + (int option \<times> int option)"
where
  "validate_dimensions width height =
     (case (width, height) of
        (Some w, Some h) \<Rightarrow>
          and_then (clamp_dimension w) (\<lambda>w1.
          and_then (clamp_dimension h) (\<lambda>h1.
          and_then (round_dimension w1) (\<lambda>w2.
          and_then (round_dimension h1) (\<lambda>h2.
          Inr (Some w2, Some h2)))))
      | _ \<Rightarrow> Inr (None, None))"

section \<open>The request orchestrator\<close>

definition get_aspect_ratio_from_input :: "env \<Rightarrow> pyval \<Rightarrow> exc + string" where
  "get_aspect_ratio_from_input E input_text =
     fuzzy_match (get_close_matches E) input_text AVAILABLE_ASPECT_RATIOS ''1:1''"

definition get_output_format_from_input :: "env \<Rightarrow> pyval \<Rightarrow> exc + string" where
  "get_output_format_from_input E input_text =
     fuzzy_match (get_close_matches E) input_text AVAILABLE_OUTPUT_FORMATS ''webp''"

text \<open>\<open>params.get(key, default)\<close>\<close>

definition dict_get_or :: "pydict \<Rightarrow> string \<Rightarrow> pyval \<Rightarrow> pyval" where
  "dict_get_or d k default_value = (case dict_get d k of None \<Rightarrow> default_value | Some v \<Rightarrow> v)"

text \<open>\<open>params.get("prompt", "").strip()\<close>\<close>

definition prompt_text :: "pydict \<Rightarrow> exc + string" where
  "prompt_text params =
     (case dict_get_or params ''prompt'' (VStr []) of
        VStr s \<Rightarrow> Inr (strip s)
      | v \<Rightarrow> Inl (no_attribute v ''strip''))"

text \<open>\<open>int(v)\<close>\<close>

definition py_int :: "pyval \<Rightarrow> exc + int" where
  "py_int v = (case v of VInt i \<Rightarrow> Inr i | VBool b \<Rightarrow> Inr (if b then 1 else 0) | VStr s \<Rightarrow> int_of_str s)"

text \<open>The dictionary literal that starts \<open>input_params\<close>.\<close>

definition initial_input_params :: "env \<Rightarrow> pydict \<Rightarrow> exc + pydict" where
  "initial_input_params E params =
     and_then (prompt_text params) (\<lambda>prompt.
     and_then (get_aspect_ratio_from_input E (dict_get_or params ''aspect_ratio'' (VStr ''1:1'')))
       (\<lambda>aspect_ratio.
     Inr [(''prompt'', VStr prompt), (''aspect_ratio'', VStr aspect_ratio)]))"

text \<open>
  The \<open>image_prompt\<close> block: \<open>Inl\<close> is the error text that \<open>pipe\<close> returns at once.
\<close>

definition add_image_prompt :: "env \<Rightarrow> pydict \<Rightarrow> pydict \<Rightarrow> string + pydict" where
  "add_image_prompt E params input_params =
     (case dict_get params ''image_prompt'' of
        None \<Rightarrow> Inr input_params
      | Some image_prompt \<Rightarrow>
          if \<not> validate_image_url E image_prompt
          then Inl ''Error: image_prompt must be a valid URL pointing to a jpeg, png, gif, or webp image''
          else Inr (dict_set ''image_prompt'' image_prompt input_params))"

definition add_dimensions :: "pydict \<Rightarrow> pydict \<Rightarrow> exc + pydict" where
  "add_dimensions params input_params =
     (case dict_get input_params ''aspect_ratio'' of
        None \<Rightarrow> Inl (KeyError (py_repr ''aspect_ratio''))
      | Some a \<Rightarrow>
          if a = VStr ''custom'' then
            and_then (validate_dimensions (dict_get params ''width'') (dict_get params ''height''))
              (\<lambda>(width, height).
                 case (width, height) of
                   (Some w, Some h) \<Rightarrow>
                     if w \<noteq> 0 \<and> h \<noteq> 0
                     then Inr (dict_set ''height'' (VInt h) (dict_set ''width'' (VInt w) input_params))
                     else Inr input_params
                 | _ \<Rightarrow> Inr input_params)
          else Inr input_params)"

definition add_seed :: "pydict \<Rightarrow> pydict \<Rightarrow> exc + pydict" where
  "add_seed params input_params =
     (case dict_get params ''seed'' of
        None \<Rightarrow> Inr input_params
      | Some v \<Rightarrow> and_then (py_int v) (\<lambda>i. Inr (dict_set ''seed'' (VInt i) input_params)))"

definition add_prompt_upsampling :: "pydict \<Rightarrow> pydict \<Rightarrow> exc + pydict" where
  "add_prompt_upsampling params input_params =
     (case dict_get params ''prompt_upsampling'' of
        None \<Rightarrow> Inr input_params
      | Some v \<Rightarrow> Inr (dict_set ''prompt_upsampling'' (VBool (truthy v)) input_params))"

definition add_output_format :: "env \<Rightarrow> pydict \<Rightarrow> pydict \<Rightarrow> exc + pydict" where
  "add_output_format E params input_params =
     (case dict_get params ''output_format'' of
        None \<Rightarrow> Inr input_params
      | Some v \<Rightarrow> and_then (get_output_format_from_input E v)
                   (\<lambda>f. Inr (dict_set ''output_format'' (VStr f) input_params)))"

definition add_output_quality :: "pydict \<Rightarrow> pydict \<Rightarrow> exc + pydict" where
  "add_output_quality params input_params =
     (case dict_get params ''output_quality'' of
        None \<Rightarrow> Inr input_params
      | Some v \<Rightarrow> and_then (py_max (VInt 0) v) (\<lambda>m.
                 and_then (py_min (VInt 100) m) (\<lambda>q.
                 Inr (dict_set ''output_quality'' q input_params))))"

definition add_safety_tolerance :: "pydict \<Rightarrow> pydict \<Rightarrow> exc + pydict" where
  "add_safety_tolerance params input_params =
     (case dict_get params ''safety_tolerance'' of
        None \<Rightarrow> Inr input_params
      | Some v \<Rightarrow> and_then (py_max (VInt 1) v) (\<lambda>m.
                 and_then (py_min (VInt 6) m) (\<lambda>t.
                 Inr (dict_set ''safety_tolerance'' t input_params))))"

text \<open>
  Steps 1 and 2 of \<open>pipe\<close>, up to the call of the remote service: the body raises, or
  returns a text early, or reaches the call with the finished \<open>input_params\<close>.
\<close>

datatype request = Raise exc | Return string | Call pydict

definition pipe_request :: "env \<Rightarrow> string \<Rightarrow> request" where
  "pipe_request E user_message =
     (case parse_command_params user_message of
        Inl e \<Rightarrow> Raise e
      | Inr params \<Rightarrow>
     (case prompt_text params of
        Inl e \<Rightarrow> Raise e
      | Inr p \<Rightarrow>
     if p = [] then Return ''Error: Prompt is required''
     else
     (case initial_input_params E params of
        Inl e \<Rightarrow> Raise e
      | Inr input_params0 \<Rightarrow>
     (case add_image_prompt E params input_params0 of
        Inl msg \<Rightarrow> Return msg
      | Inr input_params1 \<Rightarrow>
     (case and_then (add_dimensions params input_params1) (\<lambda>ip.
           and_then (add_seed params ip) (\<lambda>ip.
           and_then (add_prompt_upsampling params ip) (\<lambda>ip.
           and_then (add_output_format E params ip) (\<lambda>ip.
           and_then (add_output_quality params ip) (\<lambda>ip.
           add_safety_tolerance params ip))))) of
        Inl e \<Rightarrow> Raise e
      | Inr input_params \<Rightarrow> Call input_params)))))"

text \<open>
  The \<open>try\<close> block of \<open>pipe\<close>, and \<open>pipe\<close>.  The first component lists the payloads handed
  to the remote service, the second is what the function returns or raises.  The
  arguments \<open>model_id\<close>, \<open>messages\<close> and \<open>body\<close> are never read and are left out.
\<close>

definition pipe_try :: "env \<Rightarrow> string \<Rightarrow> pydict list \<times> (exc + string)" where
  "pipe_try E user_message =
     (case pipe_request E user_message of
        Raise e \<Rightarrow> ([], Inl e)
      | Return s \<Rightarrow> ([], Inr s)
      | Call input_params \<Rightarrow>
          ([input_params],
           and_then (client_run E input_params) (\<lambda>output.
             case output of
               Some out \<Rightarrow> Inr (''![image]('' @ out @ '')'' @ [CHR 0x0A])
             | None \<Rightarrow> Inr ''No image was generated.'')))"

definition pipe :: "env \<Rightarrow> string \<Rightarrow> pydict list \<times> (exc + string)" where
  "pipe E user_message =
     (case pipe_try E user_message of
        (calls, r) \<Rightarrow>
          (calls, try_except r (\<lambda>e. Inr (''Error generating image: '' @ exc_str e))))"

text \<open>
  A concrete setting in which to run the model: \<open>urlparse\<close> answers as the library does on
  the two URLs used in the examples, finds no scheme in any other string, and fails on a
  number as the library does; \<open>get_close_matches\<close> finds nothing; and the remote service
  returns one image URL.
\<close>

definition sample_urlparse :: "pyval \<Rightarrow> exc + url_parts" where
  "sample_urlparse u =
     (if u = VStr ''https://x.com/a.png''
      then Inr \<lparr>url_scheme = ''https'', url_netloc = ''x.com'', url_path = ''/a.png''\<rparr>
      else if u = VStr ''https://x.com/a.txt''
      then Inr \<lparr>url_scheme = ''https'', url_netloc = ''x.com'', url_path = ''/a.txt''\<rparr>
      else (case u of
              VStr s \<Rightarrow> Inr \<lparr>url_scheme = [], url_netloc = [], url_path = s\<rparr>
            | _ \<Rightarrow> if truthy u then Inl (no_attribute u ''decode'')
                   else Inr \<lparr>url_scheme = [], url_netloc = [], url_path = []\<rparr>))"

definition sample_env :: env where
  "sample_env =
     \<lparr>urlparse = sample_urlparse,
      get_close_matches = (\<lambda>word possibilities. Inr []),
      client_run = (\<lambda>input_params. Inr (Some ''https://replicate.delivery/out.webp''))\<rparr>"

text \<open>The example of the docstring of \<open>parse_command_params\<close>.\<close>

definition docstring_example :: string where
  "docstring_example =
     ''A painting of a '' @ [CHR 0x22] @ ''sunset -- very beautiful'' @ [CHR 0x22]
       @ '' --aspect_ratio 16:9''"

text \<open>The same setting with a remote service that fails.\<close>

definition unreachable_env :: env where
  "unreachable_env =
     sample_env\<lparr>client_run :=
       (\<lambda>input_params. Inl (OtherError ''ReplicateError'' ''service unavailable''))\<rparr>"

section \<open>Well-formed messages\<close>

text \<open>
  The command syntax of the documentation, \<open><prompt> --flag1 value1 --flag2 value2 ...\<close>:
  a message is a free text without the marker, followed by flag units, each written as a
  space, the marker, a name, a space and a value.  A name is a word without whitespace; a
  value is not empty, carries no whitespace at either end, and holds no marker.
\<close>

definition flag_text :: "string \<times> string \<Rightarrow> string" where
  "flag_text f = '' --'' @ fst f @ '' '' @ snd f"

definition flag_name_ok :: "string \<Rightarrow> bool" where
  "flag_name_ok n = (n \<noteq> [] \<and> (\<forall>c\<in>set n. \<not> is_space c) \<and> find_marker n = -1)"

definition flag_value_ok :: "string \<Rightarrow> bool" where
  "flag_value_ok V = (V \<noteq> [] \<and> \<not> is_space (hd V) \<and> \<not> is_space (last V) \<and> find_marker V = -1)"

text \<open>
  The effect of the flag units of such a message, taken in their order: each value is
  converted and stored under its name.
\<close>

fun store_flags :: "(string \<times> string) list \<Rightarrow> pydict \<Rightarrow> exc + pydict" where
  "store_flags [] params = Inr params"
| "store_flags (f # fs) params =
     and_then (convert_value (VStr (snd f))) (\<lambda>v. store_flags fs (dict_set (fst f) v params))"

text \<open>The pieces into which \<open>split('--')\<close> cuts the flag units of such a message.\<close>

fun unit_tokens :: "(string \<times> string) list \<Rightarrow> string list" where
  "unit_tokens [] = []"
| "unit_tokens [f] = [fst f @ CHR '' '' # snd f]"
| "unit_tokens (f # g # fs) = (fst f @ CHR '' '' # snd f @ [CHR '' '']) # unit_tokens (g # fs)"

section \<open>Dimension validation\<close>

lemma clamp_dimension_int:
  "clamp_dimension (VInt w) = Inr (VInt (max 256 (min 1440 w)))"
  by (simp add: clamp_dimension_def py_min_def py_max_def py_less_def py_greater_def
      py_num_def and_then_def max_def min_def)

lemma round_div32_near: "\<bar>round_div32 x * 32 - x\<bar> \<le> 16"
  unfolding round_div32_def Let_def by presburger

lemma round_div32_tie: "\<bar>round_div32 x * 32 - x\<bar> = 16 \<Longrightarrow> even (round_div32 x)"
  unfolding round_div32_def Let_def by presburger

lemma round_div32_range:
  "256 \<le> x \<Longrightarrow> x \<le> 1440 \<Longrightarrow> 256 \<le> round_div32 x * 32 \<and> round_div32 x * 32 \<le> 1440"
  unfolding round_div32_def Let_def by presburger

lemma validate_dimensions_int:
  "validate_dimensions (Some (VInt w)) (Some (VInt h)) =
     Inr (Some (round_div32 (max 256 (min 1440 w)) * 32),
          Some (round_div32 (max 256 (min 1440 h)) * 32))"
  by (simp add: validate_dimensions_def clamp_dimension_int round_dimension_def py_num_def
      and_then_def)

text \<open>
  C4, as the claim states it, fails: a clamped value of 1232 lies halfway between 1216 and
  1248, and the result is 1216, not 1248.
\<close>

theorem C4_counterexample_midpoint_rounds_to_even:
  "validate_dimensions (Some (VInt 1232)) (Some (VInt 1232)) = Inr (Some 1216, Some 1216)
   \<and> validate_dimensions (Some (VInt 1232)) (Some (VInt 1232)) \<noteq> Inr (Some 1248, Some 1248)"
  by (simp add: validate_dimensions_int round_div32_def)

text \<open>
  C4 (amended): for all integers \<open>width\<close> and \<open>height\<close>, \<open>validate_dimensions\<close> returns for
  each the multiple of 32 nearest to the value clamped to \<open>[256, 1440]\<close>; a clamped value
  exactly halfway between two multiples goes to the one that is an even multiple of 32
  (round-half-to-even), so 1232 becomes 1216.
\<close>

theorem C4_rounds_to_nearest_multiple_ties_to_even:
  "\<exists>w' h'. validate_dimensions (Some (VInt w)) (Some (VInt h)) = Inr (Some w', Some h')
     \<and> 32 dvd w' \<and> \<bar>w' - max 256 (min 1440 w)\<bar> \<le> 16
     \<and> (\<bar>w' - max 256 (min 1440 w)\<bar> = 16 \<longrightarrow> even (w' div 32))
     \<and> 32 dvd h' \<and> \<bar>h' - max 256 (min 1440 h)\<bar> \<le> 16
     \<and> (\<bar>h' - max 256 (min 1440 h)\<bar> = 16 \<longrightarrow> even (h' div 32))"
  using round_div32_near round_div32_tie
  by (simp add: validate_dimensions_int)

theorem C4_rounds_to_nearest_multiple_ties_to_even_witness:
  "validate_dimensions (Some (VInt 1232)) (Some (VInt 1200)) = Inr (Some 1216, Some 1216)
   \<and> \<bar>1216 - max 256 (min 1440 (1232::int))\<bar> = 16 \<and> even ((1216::int) div 32)
   \<and> \<bar>1216 - max 256 (min 1440 (1200::int))\<bar> = 16"
proof -
  obtain w' h' where
    r: "validate_dimensions (Some (VInt 1232)) (Some (VInt 1200)) = Inr (Some w', Some h')"
    and w: "\<bar>w' - max 256 (min 1440 1232)\<bar> = 16 \<longrightarrow> even (w' div 32)"
    using C4_rounds_to_nearest_multiple_ties_to_even [of 1232 1200] by blast
  have v: "validate_dimensions (Some (VInt 1232)) (Some (VInt 1200)) = Inr (Some 1216, Some 1216)"
    by (simp add: validate_dimensions_int round_div32_def)
  with r have "w' = 1216" by simp
  with w v show ?thesis by simp
qed

text \<open>
  C5: for arbitrary integers \<open>width\<close> and \<open>height\<close>, \<open>validate_dimensions\<close> returns two
  multiples of 32 that lie in \<open>[256, 1440]\<close>; when either argument is absent it returns
  \<open>(None, None)\<close>; and whatever it returns has both components or neither.
\<close>

theorem C5_dimensions_in_range_both_or_neither:
  "(\<exists>w' h'. validate_dimensions (Some (VInt w)) (Some (VInt h)) = Inr (Some w', Some h')
      \<and> 32 dvd w' \<and> 256 \<le> w' \<and> w' \<le> 1440 \<and> 32 dvd h' \<and> 256 \<le> h' \<and> h' \<le> 1440)
   \<and> (width = None \<or> height = None \<longrightarrow> validate_dimensions width height = Inr (None, None))
   \<and> (\<forall>x y. validate_dimensions width height = Inr (x, y) \<longrightarrow> (x = None \<longleftrightarrow> y = None))"
proof -
  have a: "256 \<le> round_div32 (max 256 (min 1440 x)) * 32
           \<and> round_div32 (max 256 (min 1440 x)) * 32 \<le> 1440" for x
    by (rule round_div32_range) simp_all
  have b: "validate_dimensions width height = Inr (x, y) \<Longrightarrow> (x = None \<longleftrightarrow> y = None)" for x y
    by (auto simp: validate_dimensions_def and_then_def split: option.splits sum.splits)
  have c: "width = None \<or> height = None \<Longrightarrow> validate_dimensions width height = Inr (None, None)"
    by (auto simp: validate_dimensions_def split: option.splits)
  from a b c show ?thesis
    by (simp add: validate_dimensions_int)
qed

theorem C5_dimensions_in_range_both_or_neither_witness:
  "validate_dimensions (Some (VInt 100)) (Some (VInt 2000)) = Inr (Some 256, Some 1440)
   \<and> validate_dimensions None (Some (VInt 500)) = Inr (None, None)"
proof -
  have "validate_dimensions None (Some (VInt 500)) = Inr (None, None)"
    using C5_dimensions_in_range_both_or_neither [of 100 2000 None "Some (VInt 500)"] by simp
  moreover
  have "validate_dimensions (Some (VInt 100)) (Some (VInt 2000)) = Inr (Some 256, Some 1440)"
    by (simp add: validate_dimensions_int round_div32_def)
  ultimately show ?thesis by simp
qed

section \<open>The tokenizer on the examples of the documentation\<close>

text \<open>
  C1: a flag with no value is meant to be stored as \<open>True\<close>.  On \<open>a cat --prompt_upsampling\<close>
  the \<open>try\<close> block raises instead, because \<open>convert_value\<close> is applied to the boolean, and
  the handler returns the whole message as the prompt with no flag at all.
\<close>

theorem C1_flag_without_value_drops_all_flags:
  "parse_try ''a cat --prompt_upsampling'' = Inl (no_attribute (VBool True) ''lower'')
   \<and> parse_command_params ''a cat --prompt_upsampling''
       = Inr [(''prompt'', VStr ''a cat --prompt_upsampling'')]"
  by code_simp

text \<open>
  C2: on the example of its own docstring, the tokenizer cuts the prompt at the marker
  inside the quoted text and reads the rest of the quotation as a flag named \<open>very\<close>.
\<close>

theorem C2_docstring_example_is_split_at_inner_marker:
  "parse_command_params docstring_example =
     Inr [(''prompt'', VStr (''A painting of a '' @ [CHR 0x22] @ ''sunset'')),
          (''very'', VStr (''beautiful'' @ [CHR 0x22])),
          (''aspect_ratio'', VStr ''16:9'')]"
  by code_simp

text \<open>
  C3: the keys of the payload come in the order in which \<open>pipe\<close> assigns them, with
  \<open>image_prompt\<close> after \<open>aspect_ratio\<close> and \<open>safety_tolerance\<close> last.
\<close>

theorem C3_payload_key_order:
  "map dict_keys (fst (pipe sample_env
      ''A cat --image_prompt https://x.com/a.png --safety_tolerance 3 --seed 7''))
   = [[''prompt'', ''aspect_ratio'', ''image_prompt'', ''seed'', ''safety_tolerance'']]"
  by code_simp

section \<open>Fuzzy matching\<close>

lemma fuzzy_match_empty: "fuzzy_match gcm (VStr []) cands d = Inr d"
  by (simp add: fuzzy_match_def truthy_def)

lemma fuzzy_match_none: "lower s = ''none'' \<Longrightarrow> fuzzy_match gcm (VStr s) cands d = Inr d"
  by (simp add: fuzzy_match_def truthy_def)

lemma fuzzy_match_exact:
  "c \<in> set cands \<Longrightarrow> c \<noteq> [] \<Longrightarrow> lower c \<noteq> ''none'' \<Longrightarrow> fuzzy_match gcm (VStr c) cands d = Inr c"
  by (simp add: fuzzy_match_def truthy_def)

lemma aspect_ratios_canonical:
  "\<forall>c\<in>set AVAILABLE_ASPECT_RATIOS. c \<noteq> [] \<and> lower c \<noteq> ''none''"
  by code_simp

lemma output_formats_canonical:
  "\<forall>c\<in>set AVAILABLE_OUTPUT_FORMATS. c \<noteq> [] \<and> lower c \<noteq> ''none''"
  by code_simp

text \<open>
  C6, as the claim states it, fails for a candidate list that holds the word \<open>none\<close>:
  the test for \<open>none\<close> comes before the exact match, so the default is returned.
\<close>

theorem C6_counterexample_candidate_none:
  "''none'' \<in> set [''none'', ''all'']
   \<and> fuzzy_match (get_close_matches sample_env) (VStr ''none'') [''none'', ''all''] ''all'' = Inr ''all''
   \<and> fuzzy_match (get_close_matches sample_env) (VStr ''none'') [''none'', ''all''] ''all'' \<noteq> Inr ''none''"
  by code_simp

text \<open>
  C6 (amended): for every candidate list and default, \<open>fuzzy_match\<close> of the empty string
  and of any case variant of \<open>none\<close> yields the default; every candidate that is neither
  empty nor a case variant of \<open>none\<close> is returned unchanged; and so is every value of the
  aspect-ratio and of the output-format candidate lists.
\<close>

theorem C6_fuzzy_match_default_and_exact:
  "fuzzy_match gcm (VStr []) cands d = Inr d
   \<and> (lower s = ''none'' \<longrightarrow> fuzzy_match gcm (VStr s) cands d = Inr d)
   \<and> (c \<in> set cands \<and> c \<noteq> [] \<and> lower c \<noteq> ''none'' \<longrightarrow> fuzzy_match gcm (VStr c) cands d = Inr c)
   \<and> (\<forall>a\<in>set AVAILABLE_ASPECT_RATIOS. get_aspect_ratio_from_input E (VStr a) = Inr a)
   \<and> (\<forall>f\<in>set AVAILABLE_OUTPUT_FORMATS. get_output_format_from_input E (VStr f) = Inr f)"
  using aspect_ratios_canonical output_formats_canonical
  by (simp add: fuzzy_match_empty fuzzy_match_none fuzzy_match_exact
      get_aspect_ratio_from_input_def get_output_format_from_input_def)

theorem C6_fuzzy_match_default_and_exact_witness:
  "lower ''NoNe'' = ''none''
   \<and> fuzzy_match (get_close_matches sample_env) (VStr ''NoNe'') AVAILABLE_OUTPUT_FORMATS ''webp'' = Inr ''webp''
   \<and> ''jpg'' \<in> set AVAILABLE_OUTPUT_FORMATS \<and> ''jpg'' \<noteq> [] \<and> lower ''jpg'' \<noteq> ''none''
   \<and> fuzzy_match (get_close_matches sample_env) (VStr ''jpg'') AVAILABLE_OUTPUT_FORMATS ''webp'' = Inr ''jpg''
   \<and> ''16:9'' \<in> set AVAILABLE_ASPECT_RATIOS
   \<and> get_aspect_ratio_from_input sample_env (VStr ''16:9'') = Inr ''16:9''
   \<and> ''png'' \<in> set AVAILABLE_OUTPUT_FORMATS
   \<and> get_output_format_from_input sample_env (VStr ''png'') = Inr ''png''"
proof -
  have l: "lower ''NoNe'' = ''none''" "lower ''jpg'' \<noteq> ''none''"
    by code_simp+
  have m: "''jpg'' \<in> set AVAILABLE_OUTPUT_FORMATS" "''png'' \<in> set AVAILABLE_OUTPUT_FORMATS"
    "''16:9'' \<in> set AVAILABLE_ASPECT_RATIOS"
    by (simp_all add: AVAILABLE_OUTPUT_FORMATS_def AVAILABLE_ASPECT_RATIOS_def)
  show ?thesis
    using l m
      C6_fuzzy_match_default_and_exact [of "get_close_matches sample_env" AVAILABLE_OUTPUT_FORMATS
        "''webp''" "''NoNe''" "''jpg''" sample_env]
    by simp
qed

section \<open>The orchestrator\<close>

lemma dict_get_dict_set:
  "dict_get (dict_set k v d) k' = (if k' = k then Some v else dict_get d k')"
  by (induction d) (auto simp: dict_get_def)

lemma and_then_Inr:
  "and_then m f = Inr r \<longleftrightarrow> (\<exists>v. m = Inr v \<and> f v = Inr r)"
  by (cases m) (simp_all add: and_then_def)

lemma candidate_map_values_aux:
  "dict_get (foldl (\<lambda>m c. dict_set (lower c) c m) acc cs) k = Some c
   \<Longrightarrow> c \<in> set cs \<or> dict_get acc k = Some c"
  by (induction cs arbitrary: acc) (fastforce simp: dict_get_dict_set split: if_splits)+

lemma candidate_map_values:
  "dict_get (candidate_map cands) k = Some c \<Longrightarrow> c \<in> set cands"
  using candidate_map_values_aux [of "[]" cands k c]
  by (simp add: candidate_map_def dict_get_def)

lemma fuzzy_match_result:
  assumes "fuzzy_match gcm v cands d = Inr r"
  shows "r = d \<or> r \<in> set cands"
proof (cases v)
  case (VStr s)
  show ?thesis
  proof (cases "s = [] \<or> lower s = ''none'' \<or> s \<in> set cands")
    case True
    with assms VStr show ?thesis
      by (auto simp: fuzzy_match_def truthy_def split: if_splits)
  next
    case False
    with assms VStr obtain ms where
      ms: "(case ms of [] \<Rightarrow> Inr d
            | m # _ \<Rightarrow> (case dict_get (candidate_map cands) m of
                          None \<Rightarrow> Inl (KeyError (py_repr m)) | Some c \<Rightarrow> Inr c)) = Inr r"
      by (auto simp: fuzzy_match_def truthy_def and_then_Inr)
    show ?thesis
    proof (cases ms)
      case Nil
      with ms show ?thesis by simp
    next
      case (Cons m rest)
      with ms have "dict_get (candidate_map cands) m = Some r"
        by (simp split: option.splits)
      then show ?thesis by (simp add: candidate_map_values)
    qed
  qed
next
  case (VBool b)
  with assms show ?thesis by (simp add: fuzzy_match_def truthy_def split: if_splits)
next
  case (VInt i)
  with assms show ?thesis by (simp add: fuzzy_match_def truthy_def split: if_splits)
qed

lemma strip_strip: "strip (strip s) = strip s"
proof -
  define t where "t = dropWhile is_space s"
  define u where "u = rev (dropWhile is_space (rev t))"
  have pre: "\<exists>w. t = u @ w"
    unfolding u_def
    by (metis rev_append rev_rev_ident takeWhile_dropWhile_id)
  have "dropWhile is_space u = u"
  proof (cases u)
    case Nil
    then show ?thesis by simp
  next
    case (Cons a as)
    with pre have "t \<noteq> []" "hd t = a" by auto
    then have "\<not> is_space a"
      unfolding t_def using hd_dropWhile by metis
    with Cons show ?thesis by simp
  qed
  moreover have "rev (dropWhile is_space (rev u)) = u"
    by (simp add: u_def)
  ultimately show ?thesis
    by (simp add: strip_def lstrip_def rstrip_def t_def u_def)
qed

lemma validate_image_url_iff:
  "validate_image_url E u \<longleftrightarrow>
     (\<exists>parsed. urlparse E u = Inr parsed \<and> url_scheme parsed \<noteq> [] \<and> url_netloc parsed \<noteq> []
        \<and> (\<exists>ext\<in>{''.jpeg'', ''.jpg'', ''.png'', ''.gif'', ''.webp''}.
              endswith (lower (url_path parsed)) ext))"
  by (auto simp: validate_image_url_def ALLOWED_IMAGE_FORMATS_def split: sum.splits)

lemma parse_command_params_total: "\<exists>d. parse_command_params m = Inr d"
  by (cases "parse_try m") (simp_all add: parse_command_params_def try_except_def)

lemma pipe_returns: "\<exists>s. snd (pipe E m) = Inr s"
  by (auto simp: pipe_def try_except_def split: prod.splits sum.splits)

lemma pipe_of_request:
  "pipe E m =
     (case pipe_request E m of
        Raise e \<Rightarrow> ([], Inr (''Error generating image: '' @ exc_str e))
      | Return s \<Rightarrow> ([], Inr s)
      | Call p \<Rightarrow> ([p], snd (pipe E m)))"
  by (simp add: pipe_def pipe_try_def try_except_def split: request.splits)

lemma pipe_request_prompt_required:
  assumes "parse_command_params m = Inr params"
    and "dict_get params ''prompt'' = Some (VStr s)" and "strip s = []"
  shows "pipe_request E m = Return ''Error: Prompt is required''"
  using assms by (simp add: pipe_request_def prompt_text_def dict_get_or_def)

lemma pipe_request_invalid_image:
  assumes "parse_command_params m = Inr params"
    and "dict_get params ''image_prompt'' = Some u" and "\<not> validate_image_url E u"
  shows "(\<exists>e. pipe_request E m = Raise e)
       \<or> pipe_request E m = Return ''Error: Prompt is required''
       \<or> pipe_request E m =
           Return ''Error: image_prompt must be a valid URL pointing to a jpeg, png, gif, or webp image''"
  using assms
  by (simp add: pipe_request_def add_image_prompt_def split: sum.splits)

text \<open>
  C7: when the parsed prompt is a string that is empty after trimming, \<open>pipe\<close> returns
  exactly \<open>Error: Prompt is required\<close>; when an \<open>image_prompt\<close> is present whose value is
  not a valid image URL (a scheme, a host, and a lower-cased path ending in one of the five
  extensions), \<open>pipe\<close> returns a text that begins with \<open>Error\<close>; in both cases the remote
  service is not called.
\<close>

theorem C7_validation_errors_returned_without_call:
  assumes "parse_command_params m = Inr params"
  shows "((\<exists>s. dict_get params ''prompt'' = Some (VStr s) \<and> strip s = [])
            \<longrightarrow> pipe E m = ([], Inr ''Error: Prompt is required''))
       \<and> ((\<exists>u. dict_get params ''image_prompt'' = Some u
               \<and> \<not> (\<exists>parsed. urlparse E u = Inr parsed
                      \<and> url_scheme parsed \<noteq> [] \<and> url_netloc parsed \<noteq> []
                      \<and> (\<exists>ext\<in>{''.jpeg'', ''.jpg'', ''.png'', ''.gif'', ''.webp''}.
                            endswith (lower (url_path parsed)) ext)))
            \<longrightarrow> (\<exists>s. pipe E m = ([], Inr s) \<and> take 5 s = ''Error''))"
proof (intro conjI impI)
  assume "\<exists>s. dict_get params ''prompt'' = Some (VStr s) \<and> strip s = []"
  then obtain s where "dict_get params ''prompt'' = Some (VStr s)" "strip s = []" by blast
  from pipe_request_prompt_required [OF assms this]
  show "pipe E m = ([], Inr ''Error: Prompt is required'')"
    by (subst pipe_of_request) simp
next
  assume "\<exists>u. dict_get params ''image_prompt'' = Some u
               \<and> \<not> (\<exists>parsed. urlparse E u = Inr parsed
                      \<and> url_scheme parsed \<noteq> [] \<and> url_netloc parsed \<noteq> []
                      \<and> (\<exists>ext\<in>{''.jpeg'', ''.jpg'', ''.png'', ''.gif'', ''.webp''}.
                            endswith (lower (url_path parsed)) ext))"
  then obtain u where u: "dict_get params ''image_prompt'' = Some u" "\<not> validate_image_url E u"
    unfolding validate_image_url_iff by blast
  from pipe_request_invalid_image [OF assms u]
  show "\<exists>s. pipe E m = ([], Inr s) \<and> take 5 s = ''Error''"
    by (subst pipe_of_request) auto
qed


theorem C7_validation_errors_returned_without_call_witness:
  "parse_command_params ''   '' = Inr [(''prompt'', VStr [])]
   \<and> pipe sample_env ''   '' = ([], Inr ''Error: Prompt is required'')
   \<and> parse_command_params ''A cat --image_prompt not-a-url''
        = Inr [(''prompt'', VStr ''A cat''), (''image_prompt'', VStr ''not-a-url'')]
   \<and> urlparse sample_env (VStr ''not-a-url'')
        = Inr \<lparr>url_scheme = [], url_netloc = [], url_path = ''not-a-url''\<rparr>
   \<and> (\<exists>s. pipe sample_env ''A cat --image_prompt not-a-url'' = ([], Inr s) \<and> take 5 s = ''Error'')"
proof -
  have p1: "parse_command_params ''   '' = Inr [(''prompt'', VStr [])]"
    by code_simp
  have h1: "dict_get [(''prompt'', VStr [])] ''prompt'' = Some (VStr []) \<and> strip [] = []"
    by code_simp
  have p2: "parse_command_params ''A cat --image_prompt not-a-url''
        = Inr [(''prompt'', VStr ''A cat''), (''image_prompt'', VStr ''not-a-url'')]"
    by code_simp
  have h2: "dict_get [(''prompt'', VStr ''A cat''), (''image_prompt'', VStr ''not-a-url'')]
              ''image_prompt'' = Some (VStr ''not-a-url'')"
    by code_simp
  have u: "urlparse sample_env (VStr ''not-a-url'')
        = Inr \<lparr>url_scheme = [], url_netloc = [], url_path = ''not-a-url''\<rparr>"
    by code_simp
  from C7_validation_errors_returned_without_call [OF p1, of sample_env] h1
  have r1: "pipe sample_env ''   '' = ([], Inr ''Error: Prompt is required'')"
    by blast
  from C7_validation_errors_returned_without_call [OF p2, of sample_env] h2 u
  have r2: "\<exists>s. pipe sample_env ''A cat --image_prompt not-a-url'' = ([], Inr s) \<and> take 5 s = ''Error''"
    by auto
  from p1 p2 u r1 r2 show ?thesis by blast
qed

lemma prompt_text_trimmed: "prompt_text params = Inr pr \<Longrightarrow> strip pr = pr"
  by (auto simp: prompt_text_def strip_strip split: pyval.splits)

lemma initial_input_params_result:
  assumes "initial_input_params E params = Inr ip0"
  shows "\<exists>pr a. ip0 = [(''prompt'', VStr pr), (''aspect_ratio'', VStr a)]
           \<and> prompt_text params = Inr pr \<and> a \<in> set AVAILABLE_ASPECT_RATIOS"
proof -
  from assms obtain pr a where pr: "prompt_text params = Inr pr"
    and a: "get_aspect_ratio_from_input E (dict_get_or params ''aspect_ratio'' (VStr ''1:1'')) = Inr a"
    and ip0: "ip0 = [(''prompt'', VStr pr), (''aspect_ratio'', VStr a)]"
    by (auto simp: initial_input_params_def and_then_Inr)
  from a have "a = ''1:1'' \<or> a \<in> set AVAILABLE_ASPECT_RATIOS"
    unfolding get_aspect_ratio_from_input_def by (rule fuzzy_match_result)
  then have "a \<in> set AVAILABLE_ASPECT_RATIOS"
    by (auto simp: AVAILABLE_ASPECT_RATIOS_def)
  with pr ip0 show ?thesis by blast
qed

lemma add_image_prompt_keeps:
  "add_image_prompt E params ip = Inr ip' \<Longrightarrow> k \<noteq> ''image_prompt''
   \<Longrightarrow> dict_get ip' k = dict_get ip k"
  by (auto simp: add_image_prompt_def dict_get_dict_set split: option.splits if_splits)

lemma add_seed_keeps:
  "add_seed params ip = Inr ip' \<Longrightarrow> k \<noteq> ''seed'' \<Longrightarrow> dict_get ip' k = dict_get ip k"
  by (auto simp: add_seed_def and_then_Inr dict_get_dict_set split: option.splits)

lemma add_prompt_upsampling_keeps:
  "add_prompt_upsampling params ip = Inr ip' \<Longrightarrow> k \<noteq> ''prompt_upsampling''
   \<Longrightarrow> dict_get ip' k = dict_get ip k"
  by (auto simp: add_prompt_upsampling_def dict_get_dict_set split: option.splits)

lemma add_output_format_keeps:
  "add_output_format E params ip = Inr ip' \<Longrightarrow> k \<noteq> ''output_format''
   \<Longrightarrow> dict_get ip' k = dict_get ip k"
  by (auto simp: add_output_format_def and_then_Inr dict_get_dict_set split: option.splits)

lemma add_output_quality_keeps:
  "add_output_quality params ip = Inr ip' \<Longrightarrow> k \<noteq> ''output_quality''
   \<Longrightarrow> dict_get ip' k = dict_get ip k"
  by (auto simp: add_output_quality_def and_then_Inr dict_get_dict_set split: option.splits)

lemma add_safety_tolerance_keeps:
  "add_safety_tolerance params ip = Inr ip' \<Longrightarrow> k \<noteq> ''safety_tolerance''
   \<Longrightarrow> dict_get ip' k = dict_get ip k"
  by (auto simp: add_safety_tolerance_def and_then_Inr dict_get_dict_set split: option.splits)

lemma add_dimensions_result:
  assumes "add_dimensions params ip = Inr ip'"
  shows "(ip' = ip)
       \<or> (dict_get ip ''aspect_ratio'' = Some (VStr ''custom'')
           \<and> (\<exists>w h. ip' = dict_set ''height'' (VInt h) (dict_set ''width'' (VInt w) ip)))"
proof (cases "dict_get ip ''aspect_ratio'' = Some (VStr ''custom'')")
  case False
  with assms show ?thesis
    by (auto simp: add_dimensions_def split: option.splits if_splits)
next
  case True
  show ?thesis
  proof (cases "validate_dimensions (dict_get params ''width'') (dict_get params ''height'')")
    case (Inl e)
    with assms True show ?thesis
      by (simp add: add_dimensions_def and_then_def)
  next
    case (Inr wh)
    obtain width height where wh: "wh = (width, height)" by (cases wh)
    show ?thesis
    proof (cases width)
      case None
      with assms True Inr wh show ?thesis
        by (simp add: add_dimensions_def and_then_def)
    next
      case w: (Some w)
      show ?thesis
      proof (cases height)
        case None
        with assms True Inr wh w show ?thesis
          by (simp add: add_dimensions_def and_then_def)
      next
        case (Some h)
        with assms True Inr wh w show ?thesis
          by (auto simp: add_dimensions_def and_then_def split: if_splits)
      qed
    qed
  qed
qed

lemma pipe_request_Call:
  assumes "pipe_request E m = Call p"
  shows "\<exists>params pr ip0 ip1 ip2 ip3 ip4 ip5 ip6.
           parse_command_params m = Inr params \<and> prompt_text params = Inr pr \<and> pr \<noteq> []
         \<and> initial_input_params E params = Inr ip0
         \<and> add_image_prompt E params ip0 = Inr ip1
         \<and> add_dimensions params ip1 = Inr ip2
         \<and> add_seed params ip2 = Inr ip3
         \<and> add_prompt_upsampling params ip3 = Inr ip4
         \<and> add_output_format E params ip4 = Inr ip5
         \<and> add_output_quality params ip5 = Inr ip6
         \<and> add_safety_tolerance params ip6 = Inr p"
  using assms
  by (auto simp: pipe_request_def and_then_Inr split: sum.splits if_splits)

lemma pipe_calls: "p \<in> set (fst (pipe E m)) \<longleftrightarrow> pipe_request E m = Call p"
  by (auto simp: pipe_def pipe_try_def split: request.splits prod.splits)


lemma later_steps_keep:
  assumes "add_seed params ip2 = Inr ip3"
    and "add_prompt_upsampling params ip3 = Inr ip4"
    and "add_output_format E params ip4 = Inr ip5"
    and "add_output_quality params ip5 = Inr ip6"
    and "add_safety_tolerance params ip6 = Inr p"
    and "k \<in> {''prompt'', ''aspect_ratio'', ''width'', ''height''}"
  shows "dict_get p k = dict_get ip2 k"
proof -
  from assms(6) have k: "k \<noteq> ''seed''" "k \<noteq> ''prompt_upsampling''" "k \<noteq> ''output_format''"
    "k \<noteq> ''output_quality''" "k \<noteq> ''safety_tolerance''"
    by auto
  show ?thesis
    using add_seed_keeps [OF assms(1) k(1)] add_prompt_upsampling_keeps [OF assms(2) k(2)]
      add_output_format_keeps [OF assms(3) k(3)] add_output_quality_keeps [OF assms(4) k(4)]
      add_safety_tolerance_keeps [OF assms(5) k(5)]
    by simp
qed

text \<open>
  C8: every payload handed to the remote service has a non-empty, trimmed prompt and an
  aspect ratio of the fixed list; \<open>width\<close> and \<open>height\<close> occur only with the aspect ratio
  \<open>custom\<close>, and either both occur or neither does.
\<close>

theorem C8_payload_invariant:
  assumes "p \<in> set (fst (pipe E m))"
  shows "(\<exists>s. dict_get p ''prompt'' = Some (VStr s) \<and> s \<noteq> [] \<and> strip s = s)
       \<and> (\<exists>a. dict_get p ''aspect_ratio'' = Some (VStr a) \<and> a \<in> set AVAILABLE_ASPECT_RATIOS)
       \<and> (dict_get p ''width'' \<noteq> None \<or> dict_get p ''height'' \<noteq> None
            \<longrightarrow> dict_get p ''aspect_ratio'' = Some (VStr ''custom''))
       \<and> (dict_get p ''width'' = None \<longleftrightarrow> dict_get p ''height'' = None)"
proof -
  from assms have "pipe_request E m = Call p" by (simp add: pipe_calls)
  from pipe_request_Call [OF this]
  obtain params pr ip0 ip1 ip2 ip3 ip4 ip5 ip6 where
    pr: "prompt_text params = Inr pr" "pr \<noteq> []"
    and s0: "initial_input_params E params = Inr ip0"
    and s1: "add_image_prompt E params ip0 = Inr ip1"
    and s2: "add_dimensions params ip1 = Inr ip2"
    and rest: "add_seed params ip2 = Inr ip3" "add_prompt_upsampling params ip3 = Inr ip4"
      "add_output_format E params ip4 = Inr ip5" "add_output_quality params ip5 = Inr ip6"
      "add_safety_tolerance params ip6 = Inr p"
    by blast
  from initial_input_params_result [OF s0] pr obtain a where
    ip0: "ip0 = [(''prompt'', VStr pr), (''aspect_ratio'', VStr a)]"
    and a: "a \<in> set AVAILABLE_ASPECT_RATIOS"
    by auto
  have g1: "dict_get ip1 ''prompt'' = Some (VStr pr)" "dict_get ip1 ''aspect_ratio'' = Some (VStr a)"
    "dict_get ip1 ''width'' = None" "dict_get ip1 ''height'' = None"
    using add_image_prompt_keeps [OF s1] by (simp_all add: ip0 dict_get_def)
  have g2: "dict_get ip2 ''prompt'' = Some (VStr pr) \<and> dict_get ip2 ''aspect_ratio'' = Some (VStr a)
     \<and> ((dict_get ip2 ''width'' = None \<and> dict_get ip2 ''height'' = None)
        \<or> (a = ''custom'' \<and> dict_get ip2 ''width'' \<noteq> None \<and> dict_get ip2 ''height'' \<noteq> None))"
    using add_dimensions_result [OF s2] g1 by (auto simp: dict_get_dict_set)
  have keep: "dict_get p k = dict_get ip2 k"
    if "k \<in> {''prompt'', ''aspect_ratio'', ''width'', ''height''}" for k
    using later_steps_keep [OF rest that] .
  have "dict_get p ''prompt'' = dict_get ip2 ''prompt''"
    "dict_get p ''aspect_ratio'' = dict_get ip2 ''aspect_ratio''"
    "dict_get p ''width'' = dict_get ip2 ''width''"
    "dict_get p ''height'' = dict_get ip2 ''height''"
    by (simp_all add: keep)
  with g2 a pr prompt_text_trimmed [OF pr(1)] show ?thesis
    by auto
qed

theorem C8_payload_invariant_witness:
  "[(''prompt'', VStr ''A cat''), (''aspect_ratio'', VStr ''custom''),
    (''width'', VInt 1216), (''height'', VInt 256)]
     \<in> set (fst (pipe sample_env ''A cat --aspect_ratio custom --width 1232 --height 100''))
   \<and> dict_get [(''prompt'', VStr ''A cat''), (''aspect_ratio'', VStr ''custom''),
                (''width'', VInt 1216), (''height'', VInt 256)] ''width'' \<noteq> None
   \<and> dict_get [(''prompt'', VStr ''A cat''), (''aspect_ratio'', VStr ''custom''),
                (''width'', VInt 1216), (''height'', VInt 256)] ''aspect_ratio''
        = Some (VStr ''custom'')
   \<and> ''custom'' \<in> set AVAILABLE_ASPECT_RATIOS
   \<and> strip ''A cat'' = ''A cat''"
proof -
  let ?p = "[(''prompt'', VStr ''A cat''), (''aspect_ratio'', VStr ''custom''),
             (''width'', VInt 1216), (''height'', VInt 256)]"
  have sent: "?p \<in> set (fst (pipe sample_env ''A cat --aspect_ratio custom --width 1232 --height 100''))"
    by code_simp
  have w: "dict_get ?p ''width'' \<noteq> None" and pr: "dict_get ?p ''prompt'' = Some (VStr ''A cat'')"
    by (simp_all add: dict_get_def)
  from C8_payload_invariant [OF sent] w pr
  show ?thesis using sent by auto
qed

text \<open>
  C9: \<open>pipe\<close> always returns a text and never raises; the tokenizer never raises either,
  and when its \<open>try\<close> block fails it returns the whole trimmed message as the prompt and
  no flag; an exception raised while the request is built or the remote service is called
  comes back as \<open>Error generating image: \<close> followed by its message.
\<close>

theorem C9_pipe_never_raises:
  "(\<exists>s. snd (pipe E m) = Inr s)
   \<and> (\<exists>d. parse_command_params m = Inr d)
   \<and> (\<forall>e. parse_try m = Inl e \<longrightarrow> parse_command_params m = Inr [(''prompt'', VStr (strip m))])
   \<and> (\<forall>calls e. pipe_try E m = (calls, Inl e)
         \<longrightarrow> pipe E m = (calls, Inr (''Error generating image: '' @ exc_str e)))"
  using pipe_returns [of E m] parse_command_params_total [of m]
  by (simp add: parse_command_params_def pipe_def try_except_def)

theorem C9_pipe_never_raises_witness:
  "parse_try ''a cat --prompt_upsampling'' = Inl (no_attribute (VBool True) ''lower'')
   \<and> parse_command_params ''a cat --prompt_upsampling''
        = Inr [(''prompt'', VStr (strip ''a cat --prompt_upsampling''))]
   \<and> pipe_try sample_env ''A cat --seed abc''
        = ([], Inl (ValueError (''invalid literal for int() with base 10: '' @ py_repr ''abc'')))
   \<and> pipe sample_env ''A cat --seed abc''
        = ([], Inr (''Error generating image: ''
                     @ ''invalid literal for int() with base 10: '' @ py_repr ''abc''))
   \<and> pipe_try unreachable_env ''A cat''
        = ([[(''prompt'', VStr ''A cat''), (''aspect_ratio'', VStr ''1:1'')]],
           Inl (OtherError ''ReplicateError'' ''service unavailable''))
   \<and> pipe unreachable_env ''A cat''
        = ([[(''prompt'', VStr ''A cat''), (''aspect_ratio'', VStr ''1:1'')]],
           Inr ''Error generating image: service unavailable'')"
proof -
  have t: "parse_try ''a cat --prompt_upsampling'' = Inl (no_attribute (VBool True) ''lower'')"
    by code_simp
  have b: "pipe_try sample_env ''A cat --seed abc''
        = ([], Inl (ValueError (''invalid literal for int() with base 10: '' @ py_repr ''abc'')))"
    by code_simp
  have r: "pipe_try unreachable_env ''A cat''
        = ([[(''prompt'', VStr ''A cat''), (''aspect_ratio'', VStr ''1:1'')]],
           Inl (OtherError ''ReplicateError'' ''service unavailable''))"
    by code_simp
  from t C9_pipe_never_raises [of sample_env "''a cat --prompt_upsampling''"]
  have 1: "parse_command_params ''a cat --prompt_upsampling''
        = Inr [(''prompt'', VStr (strip ''a cat --prompt_upsampling''))]"
    by blast
  from b C9_pipe_never_raises [of sample_env "''A cat --seed abc''"]
  have 2: "pipe sample_env ''A cat --seed abc''
        = ([], Inr (''Error generating image: ''
                     @ exc_str (ValueError (''invalid literal for int() with base 10: ''
                                            @ py_repr ''abc''))))"
    by blast
  from r C9_pipe_never_raises [of unreachable_env "''A cat''"]
  have 3: "pipe unreachable_env ''A cat''
        = ([[(''prompt'', VStr ''A cat''), (''aspect_ratio'', VStr ''1:1'')]],
           Inr (''Error generating image: ''
                  @ exc_str (OtherError ''ReplicateError'' ''service unavailable'')))"
    by blast
  from t b r 1 2 3 show ?thesis by simp
qed

section \<open>The tokenizer on well-formed messages\<close>

lemma find_marker_ge: "- 1 \<le> find_marker s"
proof (induction s rule: find_marker.induct)
  case (1 a b cs)
  then show ?case by (auto simp: Let_def)
qed simp_all

lemma find_marker_Cons_free:
  "find_marker (a # s) = - 1
   \<longleftrightarrow> find_marker s = - 1 \<and> \<not> (a = CHR ''-'' \<and> s \<noteq> [] \<and> hd s = CHR ''-'')"
proof (cases s)
  case Nil
  then show ?thesis by simp
next
  case (Cons b cs)
  have "find_marker (b # cs) + 1 \<noteq> - 1"
    using find_marker_ge [of "b # cs"] by linarith
  with Cons show ?thesis by (auto simp: Let_def)
qed

lemma find_marker_tl: "find_marker (a # s) = - 1 \<Longrightarrow> find_marker s = - 1"
  by (simp add: find_marker_Cons_free)

lemma marker_free_append:
  "find_marker A = -1 \<Longrightarrow> find_marker B = -1 \<Longrightarrow> A = [] \<or> last A \<noteq> CHR ''-'' \<or> B = [] \<or> hd B \<noteq> CHR ''-''
   \<Longrightarrow> find_marker (A @ B) = -1"
proof (induction A)
  case Nil
  then show ?case by simp
next
  case (Cons a A)
  from Cons.prems(1) have fa: "find_marker A = -1" and na: "\<not> (a = CHR ''-'' \<and> A \<noteq> [] \<and> hd A = CHR ''-'')"
    by (simp_all add: find_marker_Cons_free)
  show ?case
  proof (cases "A = []")
    case True
    with Cons.prems show ?thesis by (auto simp: find_marker_Cons_free)
  next
    case False
    with Cons.prems have "A = [] \<or> last A \<noteq> CHR ''-'' \<or> B = [] \<or> hd B \<noteq> CHR ''-''" by auto
    from Cons.IH [OF fa Cons.prems(2) this] na False show ?thesis
      by (auto simp: find_marker_Cons_free)
  qed
qed

lemma find_marker_at:
  "find_marker A = -1 \<Longrightarrow> A = [] \<or> last A \<noteq> CHR ''-''
   \<Longrightarrow> find_marker (A @ ''--'' @ B) = int (length A)"
proof (induction A)
  case Nil
  then show ?case by simp
next
  case (Cons a A)
  from Cons.prems(1) have fa: "find_marker A = -1" by (rule find_marker_tl)
  show ?case
  proof (cases A)
    case Nil
    with Cons.prems show ?thesis by simp
  next
    case (Cons b A')
    with Cons.prems have l: "A = [] \<or> last A \<noteq> CHR ''-''" by auto
    from Cons.prems(1) Cons have nb: "\<not> (a = CHR ''-'' \<and> b = CHR ''-'')"
      by (auto split: if_splits)
    from Cons.IH [OF fa l] Cons nb show ?thesis
      by (simp add: Let_def)
  qed
qed

lemma split_marker_at:
  "find_marker A = -1 \<Longrightarrow> A = [] \<or> last A \<noteq> CHR ''-''
   \<Longrightarrow> split_marker (A @ ''--'' @ B) = A # split_marker B"
proof (induction A)
  case Nil
  then show ?case by simp
next
  case (Cons a A)
  from Cons.prems(1) have fa: "find_marker A = -1" by (rule find_marker_tl)
  show ?case
  proof (cases A)
    case Nil
    with Cons.prems show ?thesis by simp
  next
    case (Cons b A')
    with Cons.prems have l: "A = [] \<or> last A \<noteq> CHR ''-''" by auto
    from Cons.prems(1) Cons have nb: "\<not> (a = CHR ''-'' \<and> b = CHR ''-'')"
      by (auto split: if_splits)
    from Cons.IH [OF fa l] Cons nb show ?thesis
      by simp
  qed
qed

lemma split_marker_free: "find_marker s = - 1 \<Longrightarrow> split_marker s = [s]"
proof (induction s rule: split_marker.induct)
  case (1 a b cs)
  from "1.prems" have f: "find_marker (b # cs) = - 1" and n: "\<not> (a = CHR ''-'' \<and> b = CHR ''-'')"
    using find_marker_Cons_free [of a "b # cs"] by (simp_all del: find_marker.simps)
  from n f "1.IH"(2) show ?case by auto
qed simp_all

lemma rstrip_space: "is_space c \<Longrightarrow> rstrip (s @ [c]) = rstrip s"
  by (simp add: rstrip_def)

lemma strip_append_space: "is_space c \<Longrightarrow> strip (s @ [c]) = strip s"
proof (cases "\<forall>x\<in>set s. is_space x")
  case True
  assume "is_space c"
  with True have "dropWhile is_space (s @ [c]) = []" "dropWhile is_space s = []"
    by (simp_all add: dropWhile_eq_Nil_conv)
  then show ?thesis unfolding strip_def lstrip_def rstrip_def by (simp only:)
next
  case False
  assume c: "is_space c"
  from False have "dropWhile is_space (s @ [c]) = dropWhile is_space s @ [c]"
    by (auto simp: dropWhile_append1)
  with c show ?thesis by (simp add: strip_def lstrip_def rstrip_def)
qed

lemma strip_trimmed:
  "s \<noteq> [] \<Longrightarrow> \<not> is_space (hd s) \<Longrightarrow> \<not> is_space (last s) \<Longrightarrow> strip s = s"
proof -
  assume s: "s \<noteq> []" "\<not> is_space (hd s)" "\<not> is_space (last s)"
  then have "dropWhile is_space s = s" by (cases s) simp_all
  moreover from s have "dropWhile is_space (rev s) = rev s"
    by (cases "rev s") (simp_all add: last_rev [symmetric] hd_rev)
  ultimately show ?thesis by (simp add: strip_def lstrip_def rstrip_def)
qed


lemma space_is_space: "is_space CHR '' ''"
  by code_simp

lemma dash_not_space: "\<not> is_space CHR ''-''"
  by code_simp

lemma split_ws1_name_value:
  assumes "n \<noteq> []" "\<forall>c\<in>set n. \<not> is_space c" "V \<noteq> []" "\<not> is_space (hd V)"
  shows "split_ws1 (n @ CHR '' '' # V) = [n, V]"
proof -
  note sp = space_is_space
  from assms(1,2) have d1: "dropWhile is_space (n @ CHR '' '' # V) = n @ CHR '' '' # V"
    by (cases n) simp_all
  from assms(2) sp have t: "takeWhile (\<lambda>c. \<not> is_space c) (n @ CHR '' '' # V) = n"
    by (simp add: takeWhile_append2)
  from assms(2) sp have d2: "dropWhile (\<lambda>c. \<not> is_space c) (n @ CHR '' '' # V) = CHR '' '' # V"
    by (simp add: dropWhile_append2)
  from assms(3,4) sp have d3: "dropWhile is_space (CHR '' '' # V) = V"
    by (cases V) simp_all
  from assms(1,3) show ?thesis
    unfolding split_ws1_def Let_def d1 t d2 d3 by simp
qed

lemma parse_token_unit:
  assumes "flag_name_ok n" "flag_value_ok V"
  shows "parse_token (n @ CHR '' '' # V) params
           = and_then (convert_value (VStr V)) (\<lambda>v. Inr (dict_set n v params))"
    and "parse_token (n @ CHR '' '' # V @ [CHR '' '']) params
           = and_then (convert_value (VStr V)) (\<lambda>v. Inr (dict_set n v params))"
proof -
  note sp = space_is_space
  from assms have n: "n \<noteq> []" "\<forall>c\<in>set n. \<not> is_space c"
    and V: "V \<noteq> []" "\<not> is_space (hd V)" "\<not> is_space (last V)"
    by (simp_all add: flag_name_ok_def flag_value_ok_def)
  from n V have s1: "strip (n @ CHR '' '' # V) = n @ CHR '' '' # V"
    by (intro strip_trimmed) (simp_all add: hd_append)
  have "strip ((n @ CHR '' '' # V) @ [CHR '' '']) = strip (n @ CHR '' '' # V)"
    using sp by (rule strip_append_space)
  with s1 have s2: "strip (n @ CHR '' '' # V @ [CHR '' '']) = n @ CHR '' '' # V" by simp
  from n V have w: "split_ws1 (n @ CHR '' '' # V) = [n, V]"
    by (intro split_ws1_name_value)
  from n show "parse_token (n @ CHR '' '' # V) params
           = and_then (convert_value (VStr V)) (\<lambda>v. Inr (dict_set n v params))"
    unfolding parse_token_def Let_def s1 w by simp
  from n show "parse_token (n @ CHR '' '' # V @ [CHR '' '']) params
           = and_then (convert_value (VStr V)) (\<lambda>v. Inr (dict_set n v params))"
    unfolding parse_token_def Let_def s2 w by simp
qed

lemma parse_tokens_units:
  "\<forall>f\<in>set flags. flag_name_ok (fst f) \<and> flag_value_ok (snd f)
   \<Longrightarrow> parse_tokens (unit_tokens flags) params = store_flags flags params"
proof (induction flags arbitrary: params rule: unit_tokens.induct)
  case 1
  then show ?case by simp
next
  case (2 f)
  then show ?case
    by (cases "convert_value (VStr (snd f))") (simp_all add: parse_token_unit and_then_def)
next
  case (3 f g fs)
  from "3.prems" have "\<forall>f\<in>set (g # fs). flag_name_ok (fst f) \<and> flag_value_ok (snd f)"
    by simp
  from "3.IH" [OF this] "3.prems" show ?case
    by (cases "convert_value (VStr (snd f))") (simp_all add: parse_token_unit and_then_def)
qed

lemma unit_marker_free:
  assumes "flag_name_ok n" "flag_value_ok V"
  shows "find_marker (n @ CHR '' '' # V) = - 1"
    and "find_marker (n @ CHR '' '' # V @ [CHR '' '']) = - 1"
proof -
  from assms have n: "find_marker n = - 1" and V: "find_marker V = - 1"
    by (simp_all add: flag_name_ok_def flag_value_ok_def)
  from V have sv: "find_marker (CHR '' '' # V) = - 1"
    using find_marker_Cons_free [of "CHR '' ''" V] by simp
  from marker_free_append [OF n sv] show a: "find_marker (n @ CHR '' '' # V) = - 1"
    by simp
  have "find_marker [CHR '' ''] = - 1" by simp
  from marker_free_append [OF a this]
  show "find_marker (n @ CHR '' '' # V @ [CHR '' '']) = - 1" by simp
qed

lemma split_marker_units:
  "\<forall>f\<in>set (f0 # fs). flag_name_ok (fst f) \<and> flag_value_ok (snd f)
   \<Longrightarrow> split_marker (fst f0 @ CHR '' '' # snd f0 @ concat (map flag_text fs)) = unit_tokens (f0 # fs)"
proof (induction fs arbitrary: f0)
  case Nil
  then show ?case
    using unit_marker_free(1) [of "fst f0" "snd f0"] by (simp add: split_marker_free)
next
  case (Cons g gs)
  from Cons.prems have ok: "flag_name_ok (fst f0)" "flag_value_ok (snd f0)"
    and rest: "\<forall>f\<in>set (g # gs). flag_name_ok (fst f) \<and> flag_value_ok (snd f)"
    by simp_all
  let ?A = "fst f0 @ CHR '' '' # snd f0 @ [CHR '' '']"
  let ?B = "fst g @ CHR '' '' # snd g @ concat (map flag_text gs)"
  have "fst f0 @ CHR '' '' # snd f0 @ concat (map flag_text (g # gs)) = ?A @ ''--'' @ ?B"
    by (simp add: flag_text_def)
  then have "split_marker (fst f0 @ CHR '' '' # snd f0 @ concat (map flag_text (g # gs)))
               = split_marker (?A @ ''--'' @ ?B)"
    by (simp only:)
  also have "\<dots> = ?A # split_marker ?B"
    using unit_marker_free(2) [OF ok] by (intro split_marker_at) simp_all
  also have "\<dots> = ?A # unit_tokens (g # gs)"
    by (simp only: Cons.IH [OF rest])
  also have "\<dots> = unit_tokens (f0 # g # gs)"
    by simp
  finally show ?case .
qed


lemma unit_last_not_space:
  "\<forall>f\<in>set (f0 # fs). flag_name_ok (fst f) \<and> flag_value_ok (snd f)
   \<Longrightarrow> \<not> is_space (last (fst f0 @ CHR '' '' # snd f0 @ concat (map flag_text fs)))"
proof (induction fs arbitrary: f0)
  case Nil
  then show ?case by (simp add: flag_value_ok_def)
next
  case (Cons g gs)
  from Cons.prems have rest: "\<forall>f\<in>set (g # gs). flag_name_ok (fst f) \<and> flag_value_ok (snd f)"
    by simp
  have eq: "last (fst f0 @ CHR '' '' # snd f0 @ concat (map flag_text (g # gs)))
          = last (fst g @ CHR '' '' # snd g @ concat (map flag_text gs))"
    by (simp add: flag_text_def)
  show ?case unfolding eq by (rule Cons.IH [OF rest])
qed

lemma parse_try_units:
  assumes "find_marker text = - 1"
    and "\<forall>f\<in>set flags. flag_name_ok (fst f) \<and> flag_value_ok (snd f)"
  shows "parse_try (text @ concat (map flag_text flags))
           = store_flags flags [(''prompt'', VStr (strip text))]"
proof (cases flags)
  case Nil
  with assms(1) show ?thesis by (simp add: parse_try_def)
next
  case (Cons f0 fs)
  let ?body = "fst f0 @ CHR '' '' # snd f0 @ concat (map flag_text fs)"
  let ?A = "text @ [CHR '' '']"
  have msg: "text @ concat (map flag_text (f0 # fs)) = ?A @ ''--'' @ ?body"
    by (simp add: flag_text_def)
  have "find_marker [CHR '' ''] = - 1" by simp
  from marker_free_append [OF assms(1) this] have fa: "find_marker ?A = - 1" by simp
  have idx: "find_marker (?A @ ''--'' @ ?body) = int (length ?A)"
    using fa by (intro find_marker_at) simp_all
  have tk: "take (nat (int (length ?A))) (?A @ ''--'' @ ?body) = ?A"
    unfolding nat_int by simp
  have dr: "drop (nat (int (length ?A))) (?A @ ''--'' @ ?body) = ''--'' @ ?body"
    unfolding nat_int by simp
  have st: "strip ?A = strip text"
    using space_is_space by (rule strip_append_space)
  from assms(2) Cons have ok: "\<forall>f\<in>set (f0 # fs). flag_name_ok (fst f) \<and> flag_value_ok (snd f)"
    by simp
  have "\<not> is_space (last (''--'' @ ?body))"
    using unit_last_not_space [OF ok] by simp
  then have sp: "strip (''--'' @ ?body) = ''--'' @ ?body"
    using dash_not_space by (intro strip_trimmed) simp_all
  have toks: "tl (split_marker (''--'' @ ?body)) = unit_tokens (f0 # fs)"
    using split_marker_units [OF ok] by simp
  have ne: "int (length ?A) \<noteq> - 1" by simp
  have "parse_try (?A @ ''--'' @ ?body)
          = parse_tokens (unit_tokens (f0 # fs)) [(''prompt'', VStr (strip text))]"
    unfolding parse_try_def Let_def idx tk dr st sp toks using ne by (simp only: if_False)
  also have "\<dots> = store_flags (f0 # fs) [(''prompt'', VStr (strip text))]"
    using ok by (rule parse_tokens_units)
  finally show ?thesis unfolding Cons msg .
qed

lemma store_flags_keeps:
  "store_flags fs d = Inr d' \<Longrightarrow> n \<notin> fst ` set fs \<Longrightarrow> dict_get d' n = dict_get d n"
proof (induction fs arbitrary: d)
  case Nil
  then show ?case by simp
next
  case (Cons f fs)
  from Cons.prems(1) obtain v where v: "convert_value (VStr (snd f)) = Inr v"
    and r: "store_flags fs (dict_set (fst f) v d) = Inr d'"
    by (auto simp: and_then_Inr)
  from Cons.prems(2) have "n \<notin> fst ` set fs" "n \<noteq> fst f" by auto
  with Cons.IH [OF r] show ?case by (simp add: dict_get_dict_set)
qed

lemma store_flags_last:
  assumes "store_flags (pre @ (n, V) # post) d = Inr d'"
    and "n \<notin> fst ` set post" and "convert_value (VStr V) = Inr v"
  shows "dict_get d' n = Some v"
  using assms
proof (induction pre arbitrary: d)
  case Nil
  then have "store_flags post (dict_set n v d) = Inr d'"
    by (simp add: and_then_def)
  from store_flags_keeps [OF this Nil.prems(2)] show ?case
    by (simp add: dict_get_dict_set)
next
  case (Cons f pre)
  from Cons.prems(1) obtain w where
    "store_flags (pre @ (n, V) # post) (dict_set (fst f) w d) = Inr d'"
    by (auto simp: and_then_Inr)
  from Cons.IH [OF this Cons.prems(2,3)] show ?case .
qed

lemma store_flags_total:
  "\<forall>f\<in>set fs. \<exists>v. convert_value (VStr (snd f)) = Inr v \<Longrightarrow> \<exists>d'. store_flags fs d = Inr d'"
proof (induction fs arbitrary: d)
  case Nil
  then show ?case by simp
next
  case (Cons f fs)
  then obtain v where v: "convert_value (VStr (snd f)) = Inr v" by auto
  from Cons have "\<exists>d'. store_flags fs (dict_set (fst f) v d) = Inr d'" by simp
  with v show ?case by (simp add: and_then_def)
qed

lemma convert_value_str: "convert_value (VStr V) = Inr (VStr s) \<Longrightarrow> s = V"
  by (auto simp: convert_value_def and_then_Inr split: if_splits)

lemma pipe_payload_prompt:
  assumes "p \<in> set (fst (pipe E m))"
  shows "\<exists>params pr. parse_command_params m = Inr params \<and> prompt_text params = Inr pr
           \<and> dict_get p ''prompt'' = Some (VStr pr)"
proof -
  from assms have "pipe_request E m = Call p" by (simp add: pipe_calls)
  from pipe_request_Call [OF this]
  obtain params pr ip0 ip1 ip2 ip3 ip4 ip5 ip6 where
    pc: "parse_command_params m = Inr params"
    and pr: "prompt_text params = Inr pr"
    and s0: "initial_input_params E params = Inr ip0"
    and s1: "add_image_prompt E params ip0 = Inr ip1"
    and s2: "add_dimensions params ip1 = Inr ip2"
    and rest: "add_seed params ip2 = Inr ip3" "add_prompt_upsampling params ip3 = Inr ip4"
      "add_output_format E params ip4 = Inr ip5" "add_output_quality params ip5 = Inr ip6"
      "add_safety_tolerance params ip6 = Inr p"
    by blast
  from initial_input_params_result [OF s0] pr obtain a where
    ip0: "ip0 = [(''prompt'', VStr pr), (''aspect_ratio'', VStr a)]"
    by auto
  have "dict_get ip1 ''prompt'' = Some (VStr pr)"
    using add_image_prompt_keeps [OF s1] by (simp add: ip0 dict_get_def)
  with add_dimensions_result [OF s2] have "dict_get ip2 ''prompt'' = Some (VStr pr)"
    by (auto simp: dict_get_dict_set)
  moreover have "dict_get p ''prompt'' = dict_get ip2 ''prompt''"
    by (rule later_steps_keep [OF rest]) simp
  ultimately show ?thesis using pc pr by auto
qed

text \<open>
  C10 (amended): in a message made of a free text without the marker and of well-formed
  flag units whose values \<open>convert_value\<close> accepts, the tokenizer stores under each name
  the converted value of the last unit of that name.  A unit named \<open>prompt\<close> therefore
  replaces the free text by the converted value, and every request that \<open>pipe\<close> sends for
  such a message carries the value of the last \<open>prompt\<close> unit as its prompt.
\<close>

theorem C10_flag_values_stored_last_wins:
  assumes "find_marker text = - 1"
    and "\<forall>f\<in>set flags. flag_name_ok (fst f) \<and> flag_value_ok (snd f)"
    and "\<forall>f\<in>set flags. \<exists>v. convert_value (VStr (snd f)) = Inr v"
    and "flags = pre @ (n, V) # post" and "n \<notin> fst ` set post"
  shows "\<exists>d v. parse_command_params (text @ concat (map flag_text flags)) = Inr d
           \<and> convert_value (VStr V) = Inr v \<and> dict_get d n = Some v
           \<and> (n = ''prompt'' \<longrightarrow>
                (\<forall>p\<in>set (fst (pipe E (text @ concat (map flag_text flags)))).
                   dict_get p ''prompt'' = Some (VStr V)))"
proof -
  let ?m = "text @ concat (map flag_text flags)"
  from store_flags_total [OF assms(3)] obtain d where
    d: "store_flags flags [(''prompt'', VStr (strip text))] = Inr d" by blast
  with parse_try_units [OF assms(1,2)] have pt: "parse_try ?m = Inr d" by simp
  then have pc: "parse_command_params ?m = Inr d"
    by (simp add: parse_command_params_def try_except_def)
  from assms(3,4) obtain v where v: "convert_value (VStr V) = Inr v" by auto
  from d assms(4) have "store_flags (pre @ (n, V) # post) [(''prompt'', VStr (strip text))] = Inr d"
    by simp
  from store_flags_last [OF this assms(5) v] have g: "dict_get d n = Some v" .
  have "dict_get p ''prompt'' = Some (VStr V)"
    if n: "n = ''prompt''" and p: "p \<in> set (fst (pipe E ?m))" for p
  proof -
    from pipe_payload_prompt [OF p] pc obtain pr where
      pr: "prompt_text d = Inr pr" and pp: "dict_get p ''prompt'' = Some (VStr pr)"
      by auto
    from pr g n obtain s where s: "v = VStr s" "pr = strip s"
      by (auto simp: prompt_text_def dict_get_or_def split: pyval.splits)
    from v s have "s = V" by (simp add: convert_value_str)
    moreover from assms(2,4) have "flag_value_ok V" by auto
    then have "strip V = V" by (simp add: flag_value_ok_def strip_trimmed)
    ultimately show ?thesis using pp s by simp
  qed
  with pc v g show ?thesis by blast
qed


text \<open>
  C10, as the claim states it, fails for a value that \<open>convert_value\<close> turns into a
  number: the parsed prompt is the integer 42, not the text, and no request is sent.
\<close>

theorem C10_counterexample_numeric_prompt:
  "parse_command_params ''a cat --prompt 42'' = Inr [(''prompt'', VInt 42)]
   \<and> dict_get [(''prompt'', VInt 42)] ''prompt'' \<noteq> Some (VStr ''42'')
   \<and> pipe sample_env ''a cat --prompt 42''
        = ([], Inr (''Error generating image: '' @ exc_str (no_attribute (VInt 42) ''strip'')))"
  by code_simp

theorem C10_flag_values_stored_last_wins_witness:
  "find_marker ''a cat'' = - 1
   \<and> ''a cat'' @ concat (map flag_text [(''seed'', ''7''), (''prompt'', ''a dog''), (''seed'', ''9'')])
        = ''a cat --seed 7 --prompt a dog --seed 9''
   \<and> convert_value (VStr ''9'') = Inr (VInt 9)
   \<and> convert_value (VStr ''a dog'') = Inr (VStr ''a dog'')
   \<and> parse_command_params ''a cat --seed 7 --prompt a dog --seed 9''
        = Inr [(''prompt'', VStr ''a dog''), (''seed'', VInt 9)]
   \<and> dict_get [(''prompt'', VStr ''a dog''), (''seed'', VInt 9)] ''seed'' = Some (VInt 9)
   \<and> dict_get [(''prompt'', VStr ''a dog''), (''seed'', VInt 9)] ''prompt'' = Some (VStr ''a dog'')
   \<and> fst (pipe sample_env ''a cat --seed 7 --prompt a dog --seed 9'')
        = [[(''prompt'', VStr ''a dog''), (''aspect_ratio'', VStr ''1:1''), (''seed'', VInt 9)]]
   \<and> dict_get [(''prompt'', VStr ''a dog''), (''aspect_ratio'', VStr ''1:1''), (''seed'', VInt 9)]
         ''prompt'' = Some (VStr ''a dog'')"
proof -
  let ?fl = "[(''seed'', ''7''), (''prompt'', ''a dog''), (''seed'', ''9'')]"
  let ?m = "''a cat --seed 7 --prompt a dog --seed 9''"
  let ?d = "[(''prompt'', VStr ''a dog''), (''seed'', VInt 9)]"
  let ?p = "[(''prompt'', VStr ''a dog''), (''aspect_ratio'', VStr ''1:1''), (''seed'', VInt 9)]"
  have t: "find_marker ''a cat'' = - 1" by code_simp
  have ok: "\<forall>f\<in>set ?fl. flag_name_ok (fst f) \<and> flag_value_ok (snd f)" by code_simp
  have m: "''a cat'' @ concat (map flag_text ?fl) = ?m" by code_simp
  have c7: "convert_value (VStr ''7'') = Inr (VInt 7)" by code_simp
  have c9: "convert_value (VStr ''9'') = Inr (VInt 9)" by code_simp
  have cp: "convert_value (VStr ''a dog'') = Inr (VStr ''a dog'')" by code_simp
  from c7 c9 cp have cv: "\<forall>f\<in>set ?fl. \<exists>v. convert_value (VStr (snd f)) = Inr v" by simp
  have parsed: "parse_command_params ?m = Inr ?d" by code_simp
  have sent: "fst (pipe sample_env ?m) = [?p]" by code_simp
  have "?fl = [(''seed'', ''7''), (''prompt'', ''a dog'')] @ (''seed'', ''9'') # []"
    and "''seed'' \<notin> fst ` set []"
    by simp_all
  from C10_flag_values_stored_last_wins [OF t ok cv this, of sample_env]
  have g1: "dict_get ?d ''seed'' = Some (VInt 9)"
    unfolding m parsed using c9 by auto
  have "?fl = [(''seed'', ''7'')] @ (''prompt'', ''a dog'') # [(''seed'', ''9'')]"
    and "''prompt'' \<notin> fst ` set [(''seed'', ''9'')]"
    by simp_all
  from C10_flag_values_stored_last_wins [OF t ok cv this, of sample_env]
  have g2: "dict_get ?d ''prompt'' = Some (VStr ''a dog'')"
    and g3: "dict_get ?p ''prompt'' = Some (VStr ''a dog'')"
    unfolding m parsed sent using cp by auto
  from t m c9 cp parsed sent g1 g2 g3 show ?thesis by blast
qed

end
